theory Spec2Isabelle
  imports Complex_Main "HOL-Library.Multiset"
begin

section \<open>Data model\<close>

text \<open>
  Exceptions of the Python program that the model keeps as values. \<open>HTTPError\<close> carries the
  status code of the response it was raised for; \<open>RetryError\<close> is what the session raises when
  the transport gives up (retries exhausted, connection lost).
\<close>

datatype exn = IndexError | KeyError | TypeError | HTTPError nat | RetryError

text \<open>
  \<open>reportlab.lib.units.inch\<close>: the canvas measures in points, 72 to the inch. Lengths are
  Python floats in the source; the model computes with exact rationals.
\<close>

definition inch :: rat where
  "inch = 72"

text \<open>
  Modelled from the spec: class \<open>SuperHero\<close> (module \<open>superhero\<close>) is not among the source
  files. The record has the fields of the spec's HeroRecord, under the attribute names that
  \<open>pdf.py\<close> reads. \<open>alter_egos\<close> and \<open>aliases\<close> are a string or a list of strings
  (\<open>_print_list\<close> tests which). Python's \<open>==\<close> on two heroes (line 204 of \<open>pdf.py\<close>) is
  equality of the records. Should the class not define \<open>__eq__\<close>, \<open>==\<close> is identity: equal
  records in a list then stand for one object that the list holds more than once.
\<close>

datatype str_or_list = Str string | Lst "string list"

record super_hero =
  ident :: int
  full_name :: string
  occupation :: "string list"
  alter_egos :: str_or_list
  aliases :: str_or_list
  place_of_birth :: string
  picture :: string

text \<open>What the canvas is asked to do, in order.\<close>

datatype draw_op =
    NewCanvas string
  | SetFont string rat
  | DrawString rat rat string
  | DrawImage string rat rat rat rat
  | DrawParagraph string rat rat
  | ShowPage
  | Save

text \<open>
  The rendering backend: \<open>Paragraph(msg, style).wrap(max_width, max_height)\<close> returns the
  height of the wrapped text. It is a parameter of the layout.
\<close>

type_synonym backend = "string \<Rightarrow> rat \<Rightarrow> rat \<Rightarrow> rat"

text \<open>
  The \<open>PDF\<close> object. \<open>data\<close> is the dict of groups in insertion order; \<open>canvas\<close> is the
  list of operations sent to the canvas so far.
\<close>

record pdf =
  data :: "(string \<times> super_hero list) list"
  file_name :: string
  title :: string
  bottom :: rat
  page_items :: int
  font :: string
  right_info :: rat
  right_image :: rat
  canvas :: "draw_op list"

section \<open>Grouping: \<open>PDF._prepare_data\<close>\<close>

text \<open>\<open>self.data[group].append(super_hero)\<close> for a key that is present.\<close>

fun dict_append :: "string \<Rightarrow> super_hero \<Rightarrow> (string \<times> super_hero list) list
    \<Rightarrow> (string \<times> super_hero list) list" where
  "dict_append grp h [] = []"
| "dict_append grp h ((k, v) # d) =
     (if k = grp then (k, v @ [h]) # d else (k, v) # dict_append grp h d)"

fun prepare_data :: "super_hero list \<Rightarrow> (string \<times> super_hero list) list
    \<Rightarrow> exn + (string \<times> super_hero list) list" where
  "prepare_data [] d = Inr d"
| "prepare_data (super_hero # rest) d =
     (case occupation super_hero of
        [] \<Rightarrow> Inl IndexError
      | grp # _ \<Rightarrow>
          if grp \<notin> fst ` set d
          then prepare_data rest (d @ [(grp, [super_hero])])
          else prepare_data rest (dict_append grp super_hero d))"

section \<open>Drawing primitives\<close>

fun join :: "string \<Rightarrow> string list \<Rightarrow> string" where
  "join sep [] = []"
| "join sep [x] = x"
| "join sep (x # y # ys) = x @ sep @ join sep (y # ys)"

definition print_list :: "str_or_list \<Rightarrow> string" where
  "print_list s = (case s of Str t \<Rightarrow> t | Lst l \<Rightarrow> join '', '' l)"

text \<open>\<open>msg.replace('\n', '<br />')\<close>\<close>

definition replace_newlines :: "string \<Rightarrow> string" where
  "replace_newlines msg = concat (map (\<lambda>c. if c = CHR 0x0A then ''<br />'' else [c]) msg)"

definition info_markup :: "string \<Rightarrow> string \<Rightarrow> string" where
  "info_markup ttl msg = ''<b>'' @ ttl @ '':</b> '' @ replace_newlines msg"

definition draw_paragraph :: "backend \<Rightarrow> string \<Rightarrow> rat \<Rightarrow> rat \<Rightarrow> pdf \<Rightarrow> pdf" where
  "draw_paragraph wrap msg x y s =
     (let h = wrap msg (5 * inch) (11 * inch);
          y' = y - h
      in s\<lparr>canvas := canvas s @ [DrawParagraph msg x y'],
           bottom := bottom s - h - 12\<rparr>)"

definition draw_info_paragraph :: "backend \<Rightarrow> string \<Rightarrow> string \<Rightarrow> pdf \<Rightarrow> pdf" where
  "draw_info_paragraph wrap ttl msg s =
     draw_paragraph wrap (info_markup ttl msg) (right_info s) (bottom s) s"

definition draw_heading :: "string \<Rightarrow> rat \<Rightarrow> pdf \<Rightarrow> pdf" where
  "draw_heading msg font_size s =
     s\<lparr>canvas := canvas s @ [SetFont (font s) font_size, DrawString inch (bottom s) msg],
       bottom := bottom s - inch / 2\<rparr>"

definition shared_occupation :: "pdf \<Rightarrow> string \<Rightarrow> exn + bool" where
  "shared_occupation s key =
     (case map_of (data s) key of
        None \<Rightarrow> Inl KeyError
      | Some hs \<Rightarrow> Inr (length hs > 1 \<and> key \<noteq> ''-''))"

section \<open>Layout: \<open>PDF.create_pdf\<close>\<close>

text \<open>Lines 162 to 169: the margins are reset, and a shared occupation gets its heading.\<close>

definition group_begin :: "string \<Rightarrow> pdf \<Rightarrow> exn + pdf" where
  "group_begin key s =
     (let s1 = s\<lparr>right_info := 2 * inch + inch / 2, right_image := inch\<rparr>
      in case shared_occupation s1 key of
           Inl e \<Rightarrow> Inl e
         | Inr sh \<Rightarrow>
             if sh then
               (let s2 = s1\<lparr>right_info := right_info s1 + inch / 2\<rparr>;
                    s3 = s2\<lparr>right_image := right_image s2 + inch / 2\<rparr>;
                    s4 = draw_heading key 16 s3
                in Inr (s4\<lparr>page_items := page_items s4 + 1\<rparr>))
             else Inr s1)"

text \<open>Lines 173 to 202: the image, the four paragraphs, and the cursor set below the image.\<close>

definition hero_place :: "backend \<Rightarrow> super_hero \<Rightarrow> pdf \<Rightarrow> pdf" where
  "hero_place wrap hero s =
     (let s1 = s\<lparr>page_items := page_items s + 1\<rparr>;
          image_bottom = bottom s1 - 640 / 5;
          s2 = s1\<lparr>canvas := canvas s1 @
                 [SetFont (font s1) 11,
                  DrawImage (picture hero) (right_image s1) (image_bottom + 20) (480 / 5) (640 / 5)]\<rparr>;
          s3 = draw_info_paragraph wrap ''Full name'' (full_name hero) s2;
          s4 = draw_info_paragraph wrap ''Alter Egos'' (print_list (alter_egos hero)) s3;
          s5 = draw_info_paragraph wrap ''Aliases'' (print_list (aliases hero)) s4;
          s6 = draw_info_paragraph wrap ''Place of Birth'' (place_of_birth hero) s5
      in s6\<lparr>bottom := image_bottom\<rparr>)"

text \<open>Lines 204 to 215: the separator, the gap, and the page break.\<close>

definition hero_finish :: "string \<Rightarrow> super_hero list \<Rightarrow> super_hero \<Rightarrow> pdf \<Rightarrow> exn + pdf" where
  "hero_finish key heroes hero s =
     (case shared_occupation s key of
        Inl e \<Rightarrow> Inl e
      | Inr sh \<Rightarrow>
          if sh \<and> heroes = [] then Inl IndexError
          else
            (let s1 = (if sh \<and> hero = last heroes
                       then s\<lparr>canvas := canvas s @ [DrawString inch (bottom s) (replicate 80 CHR ''_'')],
                              bottom := bottom s - inch / 4\<rparr>
                       else s);
                 s2 = s1\<lparr>bottom := bottom s1 - inch / 4\<rparr>
             in Inr (if page_items s2 = 5
                     then s2\<lparr>canvas := canvas s2 @ [ShowPage], page_items := 0, bottom := 11 * inch\<rparr>
                     else s2)))"

definition hero_step :: "backend \<Rightarrow> string \<Rightarrow> super_hero list \<Rightarrow> super_hero \<Rightarrow> pdf \<Rightarrow> exn + pdf" where
  "hero_step wrap key heroes hero s = hero_finish key heroes hero (hero_place wrap hero s)"

text \<open>\<open>for hero in heroes\<close>: the list being walked, and the whole list for \<open>heroes[-1]\<close>.\<close>

fun hero_loop :: "backend \<Rightarrow> string \<Rightarrow> super_hero list \<Rightarrow> super_hero list \<Rightarrow> pdf \<Rightarrow> exn + pdf" where
  "hero_loop wrap key heroes [] s = Inr s"
| "hero_loop wrap key heroes (hero # rest) s =
     (case hero_step wrap key heroes hero s of
        Inl e \<Rightarrow> Inl e
      | Inr s' \<Rightarrow> hero_loop wrap key heroes rest s')"

definition group_step :: "backend \<Rightarrow> string \<Rightarrow> pdf \<Rightarrow> exn + pdf" where
  "group_step wrap key s =
     (case group_begin key s of
        Inl e \<Rightarrow> Inl e
      | Inr s1 \<Rightarrow>
          (case map_of (data s1) key of
             None \<Rightarrow> Inl KeyError
           | Some heroes \<Rightarrow> hero_loop wrap key heroes heroes s1))"

text \<open>\<open>for key in self.data\<close>\<close>

fun group_loop :: "backend \<Rightarrow> string list \<Rightarrow> pdf \<Rightarrow> exn + pdf" where
  "group_loop wrap [] s = Inr s"
| "group_loop wrap (key # keys) s =
     (case group_step wrap key s of
        Inl e \<Rightarrow> Inl e
      | Inr s' \<Rightarrow> group_loop wrap keys s')"

definition create_pdf :: "backend \<Rightarrow> pdf \<Rightarrow> exn + pdf" where
  "create_pdf wrap s =
     (let s1 = s\<lparr>canvas := [NewCanvas (file_name s @ ''.pdf'')]\<rparr>;
          s2 = draw_heading (title s1) 18 s1
      in case group_loop wrap (map fst (data s2)) s2 of
           Inl e \<Rightarrow> Inl e
         | Inr s3 \<Rightarrow> Inr (s3\<lparr>canvas := canvas s3 @ [Save]\<rparr>))"

text \<open>\<open>PDF.__init__\<close>\<close>

definition PDF :: "string \<Rightarrow> string \<Rightarrow> super_hero list \<Rightarrow> exn + pdf" where
  "PDF fname ttl super_heroes =
     (case prepare_data super_heroes [] of
        Inl e \<Rightarrow> Inl e
      | Inr d \<Rightarrow>
          Inr \<lparr>data = d, file_name = fname, title = ttl, bottom = 11 * inch, page_items = 0,
               font = ''Helvetica'', right_info = 2 * inch + inch / 2, right_image = inch,
               canvas = []\<rparr>)"

text \<open>
  \<open>drawImage\<close> reads the picture from its reference and \<open>save\<close> writes the file; what the
  backend does with an operation is outside the model, which records the operations asked for.
  The final \<open>print\<close> of \<open>create_pdf\<close> is left out.
\<close>

text \<open>The operations appended to the canvas between two states of the same run.\<close>

definition emitted :: "pdf \<Rightarrow> pdf \<Rightarrow> draw_op list" where
  "emitted s s' = drop (length (canvas s)) (canvas s')"

text \<open>The separator of line 205: eighty underscores at the left margin, on the cursor.\<close>

definition separator :: "pdf \<Rightarrow> draw_op" where
  "separator s = DrawString inch (bottom s) (replicate 80 CHR ''_'')"

text \<open>The four markups whose heights \<open>create_pdf\<close> asks the backend for, per hero.\<close>

definition hero_markups :: "super_hero \<Rightarrow> string list" where
  "hero_markups hero =
     [info_markup ''Full name'' (full_name hero),
      info_markup ''Alter Egos'' (print_list (alter_egos hero)),
      info_markup ''Aliases'' (print_list (aliases hero)),
      info_markup ''Place of Birth'' (place_of_birth hero)]"

text \<open>Two backends return the same heights for the four paragraphs of a hero.\<close>

definition heights_agree :: "backend \<Rightarrow> backend \<Rightarrow> super_hero \<Rightarrow> bool" where
  "heights_agree w1 w2 hero =
     list_all (\<lambda>m. w1 m (5 * inch) (11 * inch) = w2 m (5 * inch) (11 * inch)) (hero_markups hero)"

section \<open>The data source: \<open>SuperHeroClient\<close>\<close>

text \<open>
  A decoded JSON value, as \<open>r.json()\<close> returns it; \<open>JNull\<close> is also Python's \<open>None\<close>, which
  \<open>_make_request\<close> returns when it falls off its end.
\<close>

datatype json =
    JNull
  | JBool bool
  | JNum rat
  | JStr string
  | JArr "json list"
  | JObj "(string \<times> json) list"

text \<open>
  A response has a status code and a body: \<open>Inl j\<close> when \<open>r.json()\<close> decodes it to \<open>j\<close>,
  \<open>Inr t\<close> when decoding raises \<open>ValueError\<close> and \<open>r.text\<close> is \<open>t\<close>. \<open>session.send\<close>
  either returns a response or raises (\<open>SendFailed\<close>): with the mounted \<open>Retry\<close> policy a
  502, 503 or 504 is asked again, and the session raises \<open>RetryError\<close> once the attempts are
  used up.
\<close>

datatype response = Response (status_code: nat) (body: "json + string")

datatype sent = Sent response | SendFailed

text \<open>
  The two routes, \<open>/biography/{}.json\<close> and \<open>/id/{}.json\<close>. A run of \<open>main\<close> asks a route
  for an identifier at most once, so a data source is a function of the route and the
  identifier.
\<close>

datatype route = Biography_json | Id_json

type_synonym source = "route \<Rightarrow> nat \<Rightarrow> sent"

text \<open>
  What the fetcher does that can be observed: the requests it sends, the calls to
  \<open>logger.debug\<close> and \<open>logger.error\<close> (with the status), and \<open>print(err)\<close>.
\<close>

datatype event = Send route nat | Debug | Error nat | Print exn

definition make_request :: "source \<Rightarrow> route \<Rightarrow> nat \<Rightarrow> (exn + json) \<times> event list" where
  "make_request src rt i =
     (case src rt i of
        SendFailed \<Rightarrow> (Inl RetryError, [Send rt i])
      | Sent r \<Rightarrow>
          if status_code r = 200 then
            (case body r of
               Inl res_json \<Rightarrow> (Inr res_json, [Send rt i, Debug])
             | Inr text \<Rightarrow> (Inr (JStr text), [Send rt i]))
          else if status_code r = 404 then (Inr JNull, [Send rt i, Debug])
          else if status_code r \<ge> 400 then
            (if status_code r < 600 then Inl (HTTPError (status_code r)) else Inr JNull,
             [Send rt i, Error (status_code r)] @
             (case body r of Inl _ \<Rightarrow> [Debug] | Inr _ \<Rightarrow> []))
          else (Inr JNull, [Send rt i]))"

definition get_biography :: "source \<Rightarrow> nat \<Rightarrow> (exn + json) \<times> event list" where
  "get_biography src i = make_request src Biography_json i"

definition get_super_hero :: "source \<Rightarrow> nat \<Rightarrow> (exn + json) \<times> event list" where
  "get_super_hero src i = make_request src Id_json i"

section \<open>The fetcher: \<open>main\<close>\<close>

text \<open>Python's truth value of a decoded JSON value (\<open>not biography\<close>).\<close>

fun truthy :: "json \<Rightarrow> bool" where
  "truthy JNull = False"
| "truthy (JBool b) = b"
| "truthy (JNum n) = (n \<noteq> 0)"
| "truthy (JStr s) = (s \<noteq> [])"
| "truthy (JArr l) = (l \<noteq> [])"
| "truthy (JObj kv) = (kv \<noteq> [])"

text \<open>\<open>biography['publisher']\<close>: a dict is looked up, anything else cannot take a string index.\<close>

fun subscript :: "json \<Rightarrow> string \<Rightarrow> exn + json" where
  "subscript (JObj kv) k = (case map_of kv k of None \<Rightarrow> Inl KeyError | Some v \<Rightarrow> Inr v)"
| "subscript _ k = Inl TypeError"

record fetch_state =
  super_heroes :: "super_hero list"
  hero_id :: nat
  events :: "event list"

text \<open>\<open>except HTTPError as err: print(err)\<close>; any other exception leaves \<open>main\<close>.\<close>

definition except_HTTPError :: "exn \<Rightarrow> fetch_state \<Rightarrow> exn + fetch_state" where
  "except_HTTPError err s =
     (case err of
        HTTPError n \<Rightarrow> Inr (s\<lparr>events := events s @ [Print err]\<rparr>)
      | _ \<Rightarrow> Inl err)"

text \<open>
  One pass through the body of the \<open>while\<close> loop (lines 24 to 45). \<open>SuperHero.from_api\<close> is
  not among the source files and is a parameter.
\<close>

definition fetch_step :: "source \<Rightarrow> (json \<Rightarrow> exn + super_hero) \<Rightarrow> fetch_state \<Rightarrow> exn + fetch_state" where
  "fetch_step src from_api s =
     (let s1 = s\<lparr>hero_id := hero_id s + 1\<rparr>;
          (res, ev) = get_biography src (hero_id s1);
          s2 = s1\<lparr>events := events s1 @ ev\<rparr>
      in case res of
           Inl err \<Rightarrow> except_HTTPError err s2
         | Inr biography \<Rightarrow>
             if \<not> truthy biography then Inr s2
             else
               (case subscript biography ''publisher'' of
                  Inl err \<Rightarrow> except_HTTPError err s2
                | Inr publisher \<Rightarrow>
                    if publisher = JStr ''DC Comics'' then
                      (let (res2, ev2) = get_super_hero src (hero_id s2);
                           s3 = s2\<lparr>events := events s2 @ ev2\<rparr>
                       in case res2 of
                            Inl err \<Rightarrow> except_HTTPError err s3
                          | Inr hero \<Rightarrow>
                              if \<not> truthy hero then Inr s3
                              else
                                (case from_api hero of
                                   Inl err \<Rightarrow> except_HTTPError err s3
                                 | Inr super_hero \<Rightarrow>
                                     Inr (s3\<lparr>super_heroes := super_heroes s3 @ [super_hero]\<rparr>)))
                    else Inr s2))"

text \<open>
  The \<open>while\<close> loop. It need not end: \<open>None\<close> is the run that never leaves the loop,
  \<open>Some (Inl e)\<close> the run that an uncaught exception ends.
\<close>

partial_function (option) fetch_loop ::
    "source \<Rightarrow> (json \<Rightarrow> exn + super_hero) \<Rightarrow> fetch_state \<Rightarrow> (exn + fetch_state) option" where
  "fetch_loop src from_api s =
     (if length (super_heroes s) < 10 then
        (case fetch_step src from_api s of
           Inl err \<Rightarrow> Some (Inl err)
         | Inr s' \<Rightarrow> fetch_loop src from_api s')
      else Some (Inr s))"

declare fetch_loop.simps [code]

text \<open>
  The same loop cut off after \<open>n\<close> passes: the state \<open>main\<close> is in after \<open>n\<close> passes, or at
  the exit of the loop when that comes first. Every state of every run is of this form, also of
  a run that never ends.
\<close>

primrec passes :: "nat \<Rightarrow> source \<Rightarrow> (json \<Rightarrow> exn + super_hero) \<Rightarrow> fetch_state \<Rightarrow> exn + fetch_state" where
  "passes 0 src from_api s = Inr s"
| "passes (Suc n) src from_api s =
     (if length (super_heroes s) < 10 then
        (case fetch_step src from_api s of
           Inl err \<Rightarrow> Inl err
         | Inr s' \<Rightarrow> passes n src from_api s')
      else Inr s)"

definition fetch_init :: fetch_state where
  "fetch_init = \<lparr>super_heroes = [], hero_id = 0, events = []\<rparr>"

definition main :: "backend \<Rightarrow> source \<Rightarrow> (json \<Rightarrow> exn + super_hero) \<Rightarrow> (exn + pdf) option" where
  "main wrap src from_api =
     (case fetch_loop src from_api fetch_init of
        None \<Rightarrow> None
      | Some (Inl err) \<Rightarrow> Some (Inl err)
      | Some (Inr s) \<Rightarrow>
          Some (case PDF ''super_heroes'' ''The Super Heroes API - DC Comics'' (super_heroes s) of
                  Inl err \<Rightarrow> Inl err
                | Inr p \<Rightarrow> create_pdf wrap p))"

text \<open>The identifiers requested on a route, in the order of the requests.\<close>

fun requested :: "route \<Rightarrow> event list \<Rightarrow> nat list" where
  "requested rt [] = []"
| "requested rt (Send rt' i # evs) = (if rt' = rt then i # requested rt evs else requested rt evs)"
| "requested rt (_ # evs) = requested rt evs"

text \<open>The publisher that the biography lookup of an identifier reports, if it reports one.\<close>

definition biography_publisher :: "source \<Rightarrow> nat \<Rightarrow> json option" where
  "biography_publisher src i =
     (case fst (get_biography src i) of
        Inl _ \<Rightarrow> None
      | Inr biography \<Rightarrow>
          if truthy biography
          then (case subscript biography ''publisher'' of Inl _ \<Rightarrow> None | Inr p \<Rightarrow> Some p)
          else None)"

text \<open>The record that the full lookup of an identifier is turned into, if there is one.\<close>

definition full_record :: "source \<Rightarrow> (json \<Rightarrow> exn + super_hero) \<Rightarrow> nat \<Rightarrow> super_hero option" where
  "full_record src from_api i =
     (case fst (get_super_hero src i) of
        Inl _ \<Rightarrow> None
      | Inr hero \<Rightarrow>
          if truthy hero
          then (case from_api hero of Inl _ \<Rightarrow> None | Inr super_hero \<Rightarrow> Some super_hero)
          else None)"

text \<open>
  An output record comes from one of the identifiers \<open>1, \<dots>, n\<close> whose biography names the
  publisher \<open>DC Comics\<close>.
\<close>

fun from_publisher :: "source \<Rightarrow> (json \<Rightarrow> exn + super_hero) \<Rightarrow> nat \<Rightarrow> super_hero \<Rightarrow> bool" where
  "from_publisher src from_api 0 r = False"
| "from_publisher src from_api (Suc n) r =
     ((biography_publisher src (Suc n) = Some (JStr ''DC Comics'') \<and>
       full_record src from_api (Suc n) = Some r)
      \<or> from_publisher src from_api n r)"

section \<open>Grouping by first occurrence\<close>

text \<open>The elements of a list in the order of their first occurrences.\<close>

definition first_occurrences :: "'a list \<Rightarrow> 'a list" where
  "first_occurrences xs = rev (remdups (rev xs))"

text \<open>
  The grouping that the spec describes: one group per first occupation tag, in the order of
  first occurrence, each holding its heroes in input order.
\<close>

definition grouped :: "super_hero list \<Rightarrow> (string \<times> super_hero list) list" where
  "grouped hs =
     map (\<lambda>k. (k, filter (\<lambda>h. hd (occupation h) = k) hs))
       (first_occurrences (map (\<lambda>h. hd (occupation h)) hs))"

section \<open>Example data\<close>

definition mk_hero :: "int \<Rightarrow> string \<Rightarrow> string \<Rightarrow> super_hero" where
  "mk_hero i nm occ =
     \<lparr>ident = i, full_name = nm, occupation = [occ],
      alter_egos = Str ''No alter egos found.'', aliases = Lst [''A'', ''B''],
      place_of_birth = ''-'', picture = ''p.jpg''\<rparr>"

text \<open>A backend for which every paragraph is one line of the \<open>Normal\<close> style (leading 12).\<close>

definition one_line :: backend where
  "one_line msg w h = 12"

text \<open>A backend for which every paragraph is two lines.\<close>

definition two_lines :: backend where
  "two_lines msg w h = 24"

definition fresh_pdf :: "(string \<times> super_hero list) list \<Rightarrow> pdf" where
  "fresh_pdf d =
     \<lparr>data = d, file_name = ''super_heroes'', title = ''The Super Heroes API - DC Comics'',
      bottom = 11 * inch, page_items = 0, font = ''Helvetica'',
      right_info = 2 * inch + inch / 2, right_image = inch, canvas = []\<rparr>"

text \<open>Four heroes with an occupation each, then two who share one.\<close>

definition six_heroes :: "super_hero list" where
  "six_heroes =
     [mk_hero 1 ''a'' ''Pilot'', mk_hero 2 ''b'' ''King'', mk_hero 3 ''c'' ''Thief'',
      mk_hero 4 ''d'' ''Nurse'', mk_hero 5 ''e'' ''Vigilante'', mk_hero 6 ''f'' ''Vigilante'']"

text \<open>A source that answers in turn: a DC Comics record, a server error, not found.\<close>

definition dc_biography :: json where
  "dc_biography = JObj [(''publisher'', JStr ''DC Comics'')]"

definition example_source :: source where
  "example_source rt i =
     (if i mod 3 = 1 then Sent (Response 200 (Inl dc_biography))
      else if i mod 3 = 2 then Sent (Response 500 (Inr ''Internal Server Error''))
      else Sent (Response 404 (Inr [])))"

definition example_from_api :: "json \<Rightarrow> exn + super_hero" where
  "example_from_api hero = Inr (mk_hero 0 ''x'' ''-'')"

text \<open>A source whose biographies all name DC Comics and whose full lookups all fail with 500.\<close>

definition broken_id_source :: source where
  "broken_id_source rt i =
     (case rt of
        Biography_json \<Rightarrow> Sent (Response 200 (Inl dc_biography))
      | Id_json \<Rightarrow> Sent (Response 500 (Inr ''Internal Server Error'')))"

text \<open>A backend that agrees with \<open>one_line\<close> on the box the layout asks for, and nowhere else.\<close>

definition other_backend :: backend where
  "other_backend msg w h = (if w = 5 * inch \<and> h = 11 * inch then 12 else 99)"

text \<open>Three heroes, the first and the third with the same first occupation.\<close>

definition three_heroes :: "super_hero list" where
  "three_heroes =
     [mk_hero 1 ''a'' ''Pilot'', mk_hero 2 ''b'' ''Vigilante'', mk_hero 3 ''c'' ''Pilot'']"

section \<open>Paragraphs and the cursor\<close>

text \<open>
  C4, as amended. Each of the four labelled paragraphs of a hero lowers the cursor by the
  height the backend returns for its markup plus 12, and this 12 is in the canvas's own
  coordinates, points: a sixth of an inch, not twelve inches. The operations of one hero show
  the four cursor positions: each paragraph is drawn its own height below the cursor that the
  paragraphs before it left.
\<close>

theorem paragraph_gap_in_points:
  "bottom (draw_info_paragraph wrap ttl msg s) =
     bottom s - (wrap (info_markup ttl msg) (5 * inch) (11 * inch) + 12)
   \<and> (12 :: rat) = inch / 6
   \<and> emitted s (hero_place wrap hero s) =
      (let x = right_info s; b = bottom s;
           m1 = info_markup ''Full name'' (full_name hero);
           m2 = info_markup ''Alter Egos'' (print_list (alter_egos hero));
           m3 = info_markup ''Aliases'' (print_list (aliases hero));
           m4 = info_markup ''Place of Birth'' (place_of_birth hero);
           h1 = wrap m1 (5 * inch) (11 * inch);
           h2 = wrap m2 (5 * inch) (11 * inch);
           h3 = wrap m3 (5 * inch) (11 * inch);
           h4 = wrap m4 (5 * inch) (11 * inch)
       in [SetFont (font s) 11,
           DrawImage (picture hero) (right_image s) (b - 640 / 5 + 20) (480 / 5) (640 / 5),
           DrawParagraph m1 x (b - h1),
           DrawParagraph m2 x (b - (h1 + 12) - h2),
           DrawParagraph m3 x (b - (h1 + 12) - (h2 + 12) - h3),
           DrawParagraph m4 x (b - (h1 + 12) - (h2 + 12) - (h3 + 12) - h4)])"
  by (simp add: hero_place_def Let_def draw_info_paragraph_def draw_paragraph_def emitted_def
      inch_def algebra_simps)

text \<open>
  C4 as stated fails: with the layout unit an inch, a gap of 12 units is \<open>12 * inch\<close>. At
  the top of a fresh page, one paragraph of one line leaves the cursor at 768 points, not at
  \<open>792 - (12 + 864)\<close>.
\<close>

theorem paragraph_gap_not_twelve_inches:
  "bottom (draw_info_paragraph one_line ''Full name'' ''Bruce Wayne'' (fresh_pdf [])) = 768
   \<and> bottom (draw_info_paragraph one_line ''Full name'' ''Bruce Wayne'' (fresh_pdf [])) \<noteq>
     bottom (fresh_pdf []) -
       (one_line (info_markup ''Full name'' ''Bruce Wayne'') (5 * inch) (11 * inch) + 12 * inch)"
  by (simp add: draw_info_paragraph_def draw_paragraph_def fresh_pdf_def one_line_def inch_def
      Let_def)

text \<open>
  C5. Whatever heights the backend returns for the four paragraphs, placing a hero leaves the
  cursor at the image slot computed before them: the cursor at the start of the hero minus
  \<open>640 / 5\<close>.
\<close>

theorem cursor_snaps_to_image_slot:
  "bottom (hero_place wrap hero s) = bottom s - 640 / 5
   \<and> bottom (hero_place wrap hero s) = bottom (hero_place wrap' hero s)"
  by (simp add: hero_place_def Let_def)

section \<open>Headings and separators\<close>

text \<open>
  C2, as amended. For a group of the data, the heading is drawn if and only if the group has
  more than one member and its key is not the string \<open>-\<close>. When it is drawn, it is set in
  16pt at the left margin on the cursor, the page-item counter goes up by one, and both
  margins are half an inch wider than their defaults; otherwise nothing is drawn, the counter
  stays, and the margins are the defaults.
\<close>

theorem heading_iff_shared:
  assumes "map_of (data s) key = Some heroes"
  shows "\<exists>s'. group_begin key s = Inr s' \<and>
     (emitted s s' \<noteq> [] \<longleftrightarrow> length heroes > 1 \<and> key \<noteq> ''-'') \<and>
     emitted s s' =
       (if length heroes > 1 \<and> key \<noteq> ''-''
        then [SetFont (font s) 16, DrawString inch (bottom s) key] else []) \<and>
     page_items s' =
       (if length heroes > 1 \<and> key \<noteq> ''-'' then page_items s + 1 else page_items s) \<and>
     right_info s' =
       (if length heroes > 1 \<and> key \<noteq> ''-''
        then 2 * inch + inch / 2 + inch / 2 else 2 * inch + inch / 2) \<and>
     right_image s' = (if length heroes > 1 \<and> key \<noteq> ''-'' then inch + inch / 2 else inch)"
  using assms
  by (simp add: group_begin_def shared_occupation_def Let_def draw_heading_def emitted_def)

theorem heading_iff_shared_witness:
  "map_of (data (fresh_pdf [(''Vigilante'', [mk_hero 1 ''a'' ''Vigilante'', mk_hero 2 ''b'' ''Vigilante''])]))
     ''Vigilante'' = Some [mk_hero 1 ''a'' ''Vigilante'', mk_hero 2 ''b'' ''Vigilante'']
   \<and> (\<exists>s'. group_begin ''Vigilante''
              (fresh_pdf [(''Vigilante'', [mk_hero 1 ''a'' ''Vigilante'', mk_hero 2 ''b'' ''Vigilante''])])
            = Inr s' \<and>
          canvas s' = [SetFont ''Helvetica'' 16, DrawString 72 792 ''Vigilante''] \<and>
          page_items s' = 1 \<and> right_info s' = 216 \<and> right_image s' = 108)"
  using heading_iff_shared [of
      "fresh_pdf [(''Vigilante'', [mk_hero 1 ''a'' ''Vigilante'', mk_hero 2 ''b'' ''Vigilante''])]"
      "''Vigilante''" "[mk_hero 1 ''a'' ''Vigilante'', mk_hero 2 ''b'' ''Vigilante'']"]
  by (auto simp add: fresh_pdf_def emitted_def inch_def)

text \<open>
  C2 as stated fails: a group of two whose key is the string \<open>unknown\<close> gets a heading, at
  the start of the group and in the whole run for two such heroes. The key that the code
  exempts is \<open>-\<close>.
\<close>

theorem unknown_key_gets_heading:
  "map_of (data (fresh_pdf [(''unknown'', [mk_hero 1 ''a'' ''unknown'', mk_hero 2 ''b'' ''unknown''])]))
     ''unknown'' = Some [mk_hero 1 ''a'' ''unknown'', mk_hero 2 ''b'' ''unknown'']
   \<and> (case group_begin ''unknown''
              (fresh_pdf [(''unknown'', [mk_hero 1 ''a'' ''unknown'', mk_hero 2 ''b'' ''unknown''])]) of
        Inl e \<Rightarrow> False
      | Inr s' \<Rightarrow>
          canvas s' = [SetFont ''Helvetica'' 16, DrawString 72 792 ''unknown''] \<and> page_items s' = 1)
   \<and> (case PDF ''super_heroes'' ''Heroes'' [mk_hero 1 ''a'' ''unknown'', mk_hero 2 ''b'' ''unknown''] of
        Inl e \<Rightarrow> False
      | Inr s \<Rightarrow>
         (case create_pdf one_line s of
            Inl e \<Rightarrow> False
          | Inr s' \<Rightarrow>
              take 5 (canvas s') =
                [NewCanvas ''super_heroes.pdf'', SetFont ''Helvetica'' 18,
                 DrawString 72 792 ''Heroes'', SetFont ''Helvetica'' 16,
                 DrawString 72 756 ''unknown'']))"
  by (simp add: PDF_def mk_hero_def create_pdf_def draw_heading_def group_step_def
      group_begin_def shared_occupation_def hero_step_def hero_place_def hero_finish_def
      draw_info_paragraph_def draw_paragraph_def Let_def one_line_def inch_def fresh_pdf_def)

text \<open>
  C6, as amended. Take a group of the data; if it has more than one member and a key other
  than the string \<open>-\<close>, let none of its earlier members equal its last member. Then the
  separator is drawn after a member if and only if the group has more than one member, its key
  is not \<open>-\<close>, and the member is the last one; so a group of one, or a group keyed \<open>-\<close> of
  any size, never gets it. The separator is drawn on the cursor and followed by a quarter of an
  inch; every member is followed by the fixed quarter of an inch; a page break, when the
  counter is at five, comes after both and puts the cursor back at eleven inches.
\<close>

theorem separator_iff_last_of_shared:
  assumes "map_of (data s) key = Some heroes" and "i < length heroes"
    and "length heroes > 1 \<and> key \<noteq> ''-'' \<longrightarrow>
         (\<forall>j. j < length heroes - 1 \<longrightarrow> heroes ! j \<noteq> last heroes)"
  shows "\<exists>s'. hero_finish key heroes (heroes ! i) s = Inr s' \<and>
     (separator s \<in> set (emitted s s') \<longleftrightarrow>
        length heroes > 1 \<and> key \<noteq> ''-'' \<and> i = length heroes - 1) \<and>
     emitted s s' =
       (if length heroes > 1 \<and> key \<noteq> ''-'' \<and> i = length heroes - 1 then [separator s] else []) @
       (if page_items s = 5 then [ShowPage] else []) \<and>
     bottom s' =
       (if page_items s = 5 then 11 * inch
        else if length heroes > 1 \<and> key \<noteq> ''-'' \<and> i = length heroes - 1
             then bottom s - inch / 4 - inch / 4
             else bottom s - inch / 4)"
proof -
  have ne: "heroes \<noteq> []"
    using assms(2) by auto
  show ?thesis
  proof (cases "length heroes > 1 \<and> key \<noteq> ''-''")
    case False
    then show ?thesis
      using assms(1) ne
      by (auto simp add: hero_finish_def shared_occupation_def Let_def emitted_def separator_def)
  next
    case True
    with assms(3) have distinct_last: "\<forall>j. j < length heroes - 1 \<longrightarrow> heroes ! j \<noteq> last heroes"
      by simp
    have "i = length heroes - 1" if "heroes ! i = last heroes"
    proof (rule ccontr)
      assume "i \<noteq> length heroes - 1"
      then have "i < length heroes - 1" using assms(2) by simp
      then show False using distinct_last that by simp
    qed
    then have eq: "heroes ! i = last heroes \<longleftrightarrow> i = length heroes - 1"
      using ne by (auto simp add: last_conv_nth)
    show ?thesis
      using assms(1) ne eq True
      by (simp add: hero_finish_def shared_occupation_def Let_def emitted_def separator_def)
  qed
qed

theorem separator_iff_last_of_shared_witness:
  "map_of (data (fresh_pdf [(''Vigilante'', [mk_hero 1 ''a'' ''Vigilante'', mk_hero 2 ''b'' ''Vigilante''])]))
     ''Vigilante'' = Some [mk_hero 1 ''a'' ''Vigilante'', mk_hero 2 ''b'' ''Vigilante'']
   \<and> (1 :: nat) < length [mk_hero 1 ''a'' ''Vigilante'', mk_hero 2 ''b'' ''Vigilante'']
   \<and> [mk_hero 1 ''a'' ''Vigilante'', mk_hero 2 ''b'' ''Vigilante''] ! 0 \<noteq>
       last [mk_hero 1 ''a'' ''Vigilante'', mk_hero 2 ''b'' ''Vigilante'']
   \<and> (\<exists>s'. hero_finish ''Vigilante'' [mk_hero 1 ''a'' ''Vigilante'', mk_hero 2 ''b'' ''Vigilante'']
              (mk_hero 2 ''b'' ''Vigilante'')
              (fresh_pdf [(''Vigilante'', [mk_hero 1 ''a'' ''Vigilante'', mk_hero 2 ''b'' ''Vigilante''])])
            = Inr s' \<and>
          canvas s' = [DrawString 72 792 (replicate 80 CHR ''_'')] \<and> bottom s' = 756)"
  using separator_iff_last_of_shared [of
      "fresh_pdf [(''Vigilante'', [mk_hero 1 ''a'' ''Vigilante'', mk_hero 2 ''b'' ''Vigilante''])]"
      "''Vigilante''" "[mk_hero 1 ''a'' ''Vigilante'', mk_hero 2 ''b'' ''Vigilante'']" 1]
  by (auto simp add: fresh_pdf_def emitted_def separator_def inch_def mk_hero_def)

text \<open>
  C6 as stated fails: in a group of two keyed by the string \<open>unknown\<close>, the separator is
  drawn after the second member, at the end of that member and in the whole run for two such
  heroes.
\<close>

theorem unknown_key_gets_separator:
  "map_of (data (fresh_pdf [(''unknown'', [mk_hero 1 ''a'' ''unknown'', mk_hero 2 ''b'' ''unknown''])]))
     ''unknown'' = Some [mk_hero 1 ''a'' ''unknown'', mk_hero 2 ''b'' ''unknown'']
   \<and> (case hero_finish ''unknown'' [mk_hero 1 ''a'' ''unknown'', mk_hero 2 ''b'' ''unknown'']
              (mk_hero 2 ''b'' ''unknown'')
              (fresh_pdf [(''unknown'', [mk_hero 1 ''a'' ''unknown'', mk_hero 2 ''b'' ''unknown''])]) of
        Inl e \<Rightarrow> False
      | Inr s' \<Rightarrow> canvas s' = [DrawString 72 792 (replicate 80 CHR ''_'')] \<and> bottom s' = 756)
   \<and> (case PDF ''super_heroes'' ''Heroes'' [mk_hero 1 ''a'' ''unknown'', mk_hero 2 ''b'' ''unknown''] of
        Inl e \<Rightarrow> False
      | Inr s \<Rightarrow>
         (case create_pdf one_line s of
            Inl e \<Rightarrow> False
          | Inr s' \<Rightarrow> DrawString 72 446 (replicate 80 CHR ''_'') \<in> set (canvas s')))"
  by (simp add: PDF_def mk_hero_def create_pdf_def draw_heading_def group_step_def
      group_begin_def shared_occupation_def hero_step_def hero_place_def hero_finish_def
      draw_info_paragraph_def draw_paragraph_def Let_def one_line_def inch_def fresh_pdf_def)

text \<open>
  C10. In a group with more than one member and a key other than \<open>-\<close>, a member that equals
  the last member but stands before it gets the separator, and so does the last member: line
  204 compares the heroes, not their positions.
\<close>

theorem separator_after_equal_member:
  assumes "map_of (data s) key = Some heroes" and "length heroes > 1" and "key \<noteq> ''-''"
    and "i < length heroes - 1" and "heroes ! i = last heroes"
  shows "(\<exists>s'. hero_finish key heroes (heroes ! i) s = Inr s' \<and>
            take 1 (emitted s s') = [separator s] \<and>
            bottom s' = (if page_items s = 5 then 11 * inch else bottom s - inch / 4 - inch / 4))
       \<and> (\<exists>s'. hero_finish key heroes (heroes ! (length heroes - 1)) s = Inr s' \<and>
            take 1 (emitted s s') = [separator s])"
  using assms
  by (auto simp add: hero_finish_def shared_occupation_def Let_def emitted_def separator_def
      last_conv_nth)

text \<open>
  The group \<open>[a, b, a]\<close>: the separator follows the first \<open>a\<close>, and the whole run draws it
  twice, after the first hero and after the third.
\<close>

theorem separator_after_equal_member_witness:
  "map_of (data (fresh_pdf [(''Vigilante'',
       [mk_hero 1 ''a'' ''Vigilante'', mk_hero 2 ''b'' ''Vigilante'', mk_hero 1 ''a'' ''Vigilante''])]))
     ''Vigilante'' =
     Some [mk_hero 1 ''a'' ''Vigilante'', mk_hero 2 ''b'' ''Vigilante'', mk_hero 1 ''a'' ''Vigilante'']
   \<and> [mk_hero 1 ''a'' ''Vigilante'', mk_hero 2 ''b'' ''Vigilante'', mk_hero 1 ''a'' ''Vigilante''] ! 0 =
       last [mk_hero 1 ''a'' ''Vigilante'', mk_hero 2 ''b'' ''Vigilante'', mk_hero 1 ''a'' ''Vigilante'']
   \<and> (\<exists>s'. hero_finish ''Vigilante''
              [mk_hero 1 ''a'' ''Vigilante'', mk_hero 2 ''b'' ''Vigilante'', mk_hero 1 ''a'' ''Vigilante'']
              (mk_hero 1 ''a'' ''Vigilante'')
              (fresh_pdf [(''Vigilante'',
                 [mk_hero 1 ''a'' ''Vigilante'', mk_hero 2 ''b'' ''Vigilante'', mk_hero 1 ''a'' ''Vigilante''])])
            = Inr s' \<and>
          take 1 (canvas s') = [DrawString 72 792 (replicate 80 CHR ''_'')] \<and> bottom s' = 756)
   \<and> (case PDF ''super_heroes'' ''Heroes''
              [mk_hero 1 ''a'' ''Vigilante'', mk_hero 2 ''b'' ''Vigilante'', mk_hero 1 ''a'' ''Vigilante''] of
        Inl e \<Rightarrow> False
      | Inr s \<Rightarrow>
         (case create_pdf one_line s of
            Inl e \<Rightarrow> False
          | Inr s' \<Rightarrow>
              canvas s' ! 11 = DrawString 72 592 (replicate 80 CHR ''_'') \<and>
              canvas s' ! 24 = DrawString 72 282 (replicate 80 CHR ''_'') \<and>
              length (canvas s') = 26))"
proof -
  have step: "map_of (data (fresh_pdf [(''Vigilante'',
       [mk_hero 1 ''a'' ''Vigilante'', mk_hero 2 ''b'' ''Vigilante'', mk_hero 1 ''a'' ''Vigilante''])]))
     ''Vigilante'' =
     Some [mk_hero 1 ''a'' ''Vigilante'', mk_hero 2 ''b'' ''Vigilante'', mk_hero 1 ''a'' ''Vigilante'']
   \<and> [mk_hero 1 ''a'' ''Vigilante'', mk_hero 2 ''b'' ''Vigilante'', mk_hero 1 ''a'' ''Vigilante''] ! 0 =
       last [mk_hero 1 ''a'' ''Vigilante'', mk_hero 2 ''b'' ''Vigilante'', mk_hero 1 ''a'' ''Vigilante'']
   \<and> (\<exists>s'. hero_finish ''Vigilante''
              [mk_hero 1 ''a'' ''Vigilante'', mk_hero 2 ''b'' ''Vigilante'', mk_hero 1 ''a'' ''Vigilante'']
              (mk_hero 1 ''a'' ''Vigilante'')
              (fresh_pdf [(''Vigilante'',
                 [mk_hero 1 ''a'' ''Vigilante'', mk_hero 2 ''b'' ''Vigilante'', mk_hero 1 ''a'' ''Vigilante''])])
            = Inr s' \<and>
          take 1 (canvas s') = [DrawString 72 792 (replicate 80 CHR ''_'')] \<and> bottom s' = 756)"
    using separator_after_equal_member [of
      "fresh_pdf [(''Vigilante'',
         [mk_hero 1 ''a'' ''Vigilante'', mk_hero 2 ''b'' ''Vigilante'', mk_hero 1 ''a'' ''Vigilante''])]"
      "''Vigilante''"
      "[mk_hero 1 ''a'' ''Vigilante'', mk_hero 2 ''b'' ''Vigilante'', mk_hero 1 ''a'' ''Vigilante'']" 0]
    by (auto simp add: fresh_pdf_def emitted_def separator_def inch_def)
  have run: "(case PDF ''super_heroes'' ''Heroes''
              [mk_hero 1 ''a'' ''Vigilante'', mk_hero 2 ''b'' ''Vigilante'', mk_hero 1 ''a'' ''Vigilante''] of
        Inl e \<Rightarrow> False
      | Inr s \<Rightarrow>
         (case create_pdf one_line s of
            Inl e \<Rightarrow> False
          | Inr s' \<Rightarrow>
              canvas s' ! 11 = DrawString 72 592 (replicate 80 CHR ''_'') \<and>
              canvas s' ! 24 = DrawString 72 282 (replicate 80 CHR ''_'') \<and>
              length (canvas s') = 26))"
    by (simp add: PDF_def mk_hero_def create_pdf_def draw_heading_def group_step_def
        group_begin_def shared_occupation_def hero_step_def hero_place_def hero_finish_def
        draw_info_paragraph_def draw_paragraph_def Let_def one_line_def inch_def)
  from step run show ?thesis by blast
qed

section \<open>The page-item counter\<close>

text \<open>
  C1 at four heroes with an occupation each followed by two who share one: the counter is at
  four when the shared group begins, its heading takes it to five without a test, the next
  hero takes it to six, and the test \<open>== 5\<close> never holds again. The run ends with the counter
  at seven, no page break, and the cursor 174 points below the page.
\<close>

theorem page_items_pass_five:
  "(case PDF ''super_heroes'' ''The Super Heroes API - DC Comics'' six_heroes of
      Inl e \<Rightarrow> None
    | Inr s \<Rightarrow>
       (case create_pdf one_line s of
          Inl e \<Rightarrow> None
        | Inr s' \<Rightarrow> Some (page_items s', ShowPage \<in> set (canvas s'), bottom s')))
   = Some (7, False, - 174)"
  by (simp add: PDF_def six_heroes_def mk_hero_def create_pdf_def draw_heading_def group_step_def
      group_begin_def shared_occupation_def hero_step_def hero_place_def hero_finish_def
      draw_info_paragraph_def draw_paragraph_def Let_def one_line_def inch_def)

text \<open>
  What holds of the counter and the page break. After a hero of a group of the data, the page
  break is signalled if and only if the counter is at five; the counter is then zero and the
  cursor at eleven inches; otherwise the counter is as it was and the cursor is lower than
  before.
\<close>

theorem page_break_resets:
  assumes "map_of (data s) key = Some heroes" and "heroes \<noteq> []"
  shows "\<exists>s'. hero_finish key heroes hero s = Inr s' \<and>
     (ShowPage \<in> set (emitted s s') \<longleftrightarrow> page_items s = 5) \<and>
     page_items s' = (if page_items s = 5 then 0 else page_items s) \<and>
     (if page_items s = 5 then bottom s' = 11 * inch else bottom s' < bottom s)"
  using assms
  by (simp add: hero_finish_def shared_occupation_def Let_def emitted_def inch_def)

theorem page_break_resets_witness:
  "\<exists>s'. hero_finish ''Pilot'' [mk_hero 1 ''a'' ''Pilot''] (mk_hero 1 ''a'' ''Pilot'')
           ((fresh_pdf [(''Pilot'', [mk_hero 1 ''a'' ''Pilot''])])\<lparr>page_items := 5, bottom := 100\<rparr>) = Inr s' \<and>
         ShowPage \<in> set (canvas s') \<and> page_items s' = 0 \<and> bottom s' = 792"
  using page_break_resets [of
      "(fresh_pdf [(''Pilot'', [mk_hero 1 ''a'' ''Pilot''])])\<lparr>page_items := 5, bottom := 100\<rparr>"
      "''Pilot''" "[mk_hero 1 ''a'' ''Pilot'']" "mk_hero 1 ''a'' ''Pilot''"]
  by (auto simp add: fresh_pdf_def emitted_def inch_def)

section \<open>Grouping\<close>

lemma first_occurrences_snoc:
  "first_occurrences (xs @ [x]) = (if x \<in> set xs then first_occurrences xs else first_occurrences xs @ [x])"
  by (simp add: first_occurrences_def)

lemma remdups_snoc: "remdups (ys @ [x]) = filter (\<lambda>y. y \<noteq> x) (remdups ys) @ [x]"
  by (induction ys) auto

lemma first_occurrences_Cons:
  "first_occurrences (x # xs) = x # filter (\<lambda>y. y \<noteq> x) (first_occurrences xs)"
  by (simp add: first_occurrences_def remdups_snoc rev_filter)

lemma set_first_occurrences [simp]: "set (first_occurrences xs) = set xs"
  by (simp add: first_occurrences_def)

lemma distinct_first_occurrences [simp]: "distinct (first_occurrences xs)"
  by (simp add: first_occurrences_def)

lemma keys_grouped: "map fst (grouped hs) = first_occurrences (map (\<lambda>h. hd (occupation h)) hs)"
  by (simp add: grouped_def comp_def)

lemma dict_append_map:
  "distinct ks \<Longrightarrow>
   dict_append k h (map (\<lambda>k'. (k', f k')) ks) =
   map (\<lambda>k'. (k', if k' = k then f k' @ [h] else f k')) ks"
  by (induction ks) auto

lemma grouped_snoc:
  "grouped (hs @ [h]) =
     (if hd (occupation h) \<notin> fst ` set (grouped hs)
      then grouped hs @ [(hd (occupation h), [h])]
      else dict_append (hd (occupation h)) h (grouped hs))"
proof -
  let ?k = "hd (occupation h)"
  have keys: "fst ` set (grouped hs) = (\<lambda>h. hd (occupation h)) ` set hs"
    using keys_grouped [of hs] by (metis list.set_map set_first_occurrences)
  show ?thesis
  proof (cases "?k \<in> (\<lambda>h. hd (occupation h)) ` set hs")
    case True
    then show ?thesis
      unfolding keys
      by (simp add: grouped_def first_occurrences_snoc dict_append_map)
  next
    case False
    then have "\<forall>h' \<in> set hs. hd (occupation h') \<noteq> ?k"
      by (simp add: image_iff) metis
    then have "filter (\<lambda>h'. hd (occupation h') = ?k) hs = []"
      by (simp add: filter_empty_conv)
    with False show ?thesis
      unfolding keys
      by (auto simp add: grouped_def first_occurrences_snoc)
  qed
qed

lemma prepare_data_grouped:
  "\<forall>h \<in> set rest. occupation h \<noteq> [] \<Longrightarrow>
   prepare_data rest (grouped done) = Inr (grouped (done @ rest))"
proof (induction rest arbitrary: "done")
  case Nil
  then show ?case by simp
next
  case (Cons h rest)
  then obtain k ks where occ: "occupation h = k # ks"
    by (cases "occupation h") auto
  have "prepare_data (h # rest) (grouped done) = prepare_data rest (grouped (done @ [h]))"
    using occ by (simp add: grouped_snoc)
  also have "\<dots> = Inr (grouped ((done @ [h]) @ rest))"
    using Cons by simp
  finally show ?case by simp
qed

lemma mset_concat_grouped: "mset (concat (map snd (grouped hs))) = mset hs"
proof (induction hs rule: rev_induct)
  case Nil
  then show ?case by (simp add: grouped_def first_occurrences_def)
next
  case (snoc h hs)
  have app: "mset (concat (map snd (dict_append k h d))) =
      (if k \<in> fst ` set d then mset (concat (map snd d)) + {#h#} else mset (concat (map snd d)))" for k d
    by (induction d) force+
  show ?case using snoc by (simp add: grouped_snoc app)
qed

text \<open>
  C3. For heroes that each have an occupation, \<open>_prepare_data\<close> does not raise, and the dict
  it builds has as keys the first occupations of the heroes in the order of their first
  occurrence, each once; the group of a key is the list of the heroes with that first
  occupation, in input order; and the groups together hold every hero as often as the input
  does.
\<close>

theorem prepare_data_groups:
  assumes "\<forall>h \<in> set hs. occupation h \<noteq> []"
  shows "\<exists>d. prepare_data hs [] = Inr d \<and>
     map fst d = first_occurrences (map (\<lambda>h. hd (occupation h)) hs) \<and>
     distinct (map fst d) \<and>
     map snd d = map (\<lambda>k. filter (\<lambda>h. hd (occupation h) = k) hs) (map fst d) \<and>
     mset (concat (map snd d)) = mset hs"
proof -
  have p: "prepare_data hs [] = Inr (grouped hs)"
    using prepare_data_grouped [of hs "[]"] assms by (simp add: grouped_def first_occurrences_def)
  have k: "map fst (grouped hs) = first_occurrences (map (\<lambda>h. hd (occupation h)) hs)"
    by (rule keys_grouped)
  have dst: "distinct (map fst (grouped hs))"
    unfolding k by (rule distinct_first_occurrences)
  have g: "map snd (grouped hs) =
      map (\<lambda>k. filter (\<lambda>h. hd (occupation h) = k) hs) (map fst (grouped hs))"
    by (simp add: grouped_def comp_def)
  have m: "mset (concat (map snd (grouped hs))) = mset hs"
    by (rule mset_concat_grouped)
  from p k dst g m show ?thesis by blast
qed

theorem prepare_data_groups_witness:
  "list_all (\<lambda>h. occupation h \<noteq> []) three_heroes
   \<and> (\<exists>d. prepare_data three_heroes [] = Inr d \<and>
        map fst d = [''Pilot'', ''Vigilante''] \<and>
        map snd d = [[mk_hero 1 ''a'' ''Pilot'', mk_hero 3 ''c'' ''Pilot''], [mk_hero 2 ''b'' ''Vigilante'']])"
proof -
  have h: "\<forall>h \<in> set three_heroes. occupation h \<noteq> []"
    by (simp add: three_heroes_def mk_hero_def)
  show ?thesis
    using prepare_data_groups [OF h] h
    by (auto simp add: three_heroes_def mk_hero_def first_occurrences_def list_all_iff)
qed

section \<open>The fetch loop\<close>

lemma requested_append: "requested rt (xs @ ys) = requested rt xs @ requested rt ys"
  by (induction rt xs rule: requested.induct) auto

lemma requested_make_request:
  "requested rt' (snd (make_request src rt i)) = (if rt = rt' then [i] else [])"
  by (auto simp add: make_request_def split: sent.splits sum.splits)

lemma requested_make_request_eq:
  "make_request src rt i = (res, ev) \<Longrightarrow> requested rt' ev = (if rt = rt' then [i] else [])"
  using requested_make_request [of rt' src rt i] by simp

lemma requested_Print: "requested rt (evs @ [Print e]) = requested rt evs"
  by (simp add: requested_append)

lemma from_publisher_mono:
  "from_publisher src from_api n r \<Longrightarrow> n \<le> m \<Longrightarrow> from_publisher src from_api m r"
proof (induction m)
  case 0
  then show ?case by simp
next
  case (Suc m)
  then show ?case by (cases "n = Suc m") auto
qed

lemma except_HTTPError_Inr:
  "except_HTTPError err s = Inr s' \<Longrightarrow> s' = s\<lparr>events := events s @ [Print err]\<rparr>"
  by (auto simp add: except_HTTPError_def split: exn.splits)

lemma fetch_step_effect:
  assumes "fetch_step src from_api s = Inr s'"
  shows "hero_id s' = Suc (hero_id s)"
    and "requested Biography_json (events s') = requested Biography_json (events s) @ [Suc (hero_id s)]"
    and "requested Id_json (events s') = requested Id_json (events s) \<or>
         requested Id_json (events s') = requested Id_json (events s) @ [Suc (hero_id s)]"
    and "super_heroes s' = super_heroes s \<or>
         (\<exists>r. super_heroes s' = super_heroes s @ [r] \<and>
              biography_publisher src (Suc (hero_id s)) = Some (JStr ''DC Comics'') \<and>
              full_record src from_api (Suc (hero_id s)) = Some r)"
  using assms
  by (auto simp add: fetch_step_def Let_def get_biography_def get_super_hero_def
      biography_publisher_def full_record_def requested_append requested_make_request_eq
      split: prod.splits sum.splits if_splits dest!: except_HTTPError_Inr)

lemma passes_effect:
  "passes n src from_api s = Inr s' \<Longrightarrow>
   hero_id s \<le> hero_id s' \<and>
   requested Biography_json (events s') =
     requested Biography_json (events s) @ [Suc (hero_id s) ..< Suc (hero_id s')] \<and>
   (length (super_heroes s) \<le> 10 \<longrightarrow> length (super_heroes s') \<le> 10) \<and>
   (list_all (from_publisher src from_api (hero_id s)) (super_heroes s) \<longrightarrow>
    list_all (from_publisher src from_api (hero_id s')) (super_heroes s')) \<and>
   (sorted_wrt (<) (requested Id_json (events s)) \<and>
    (\<forall>i \<in> set (requested Id_json (events s)). i \<le> hero_id s) \<longrightarrow>
    sorted_wrt (<) (requested Id_json (events s')) \<and>
    (\<forall>i \<in> set (requested Id_json (events s')). i \<le> hero_id s'))"
proof (induction n arbitrary: s)
  case 0
  then show ?case by simp
next
  case (Suc n)
  show ?case
  proof (cases "length (super_heroes s) < 10")
    case False
    with Suc.prems show ?thesis by simp
  next
    case True
    with Suc.prems obtain s1 where step: "fetch_step src from_api s = Inr s1"
      and rest: "passes n src from_api s1 = Inr s'"
      by (auto split: sum.splits)
    note eff = fetch_step_effect [OF step]
    note ih = Suc.IH [OF rest]
    have id: "hero_id s \<le> hero_id s'"
      using eff(1) ih by simp
    have bio: "requested Biography_json (events s') =
        requested Biography_json (events s) @ [Suc (hero_id s) ..< Suc (hero_id s')]"
    proof -
      have "[Suc (hero_id s) ..< Suc (hero_id s')] = Suc (hero_id s) # [Suc (hero_id s1) ..< Suc (hero_id s')]"
        using eff(1) ih by (simp add: upt_conv_Cons)
      then show ?thesis using ih eff(2) by simp
    qed
    have len: "length (super_heroes s) \<le> 10 \<longrightarrow> length (super_heroes s') \<le> 10"
      using True eff(4) ih by auto
    have pub: "list_all (from_publisher src from_api (hero_id s)) (super_heroes s) \<longrightarrow>
        list_all (from_publisher src from_api (hero_id s')) (super_heroes s')"
    proof
      assume a: "list_all (from_publisher src from_api (hero_id s)) (super_heroes s)"
      have "list_all (from_publisher src from_api (hero_id s1)) (super_heroes s1)"
        using a eff(1,4) by (auto simp add: list_all_iff intro: from_publisher_mono)
      then show "list_all (from_publisher src from_api (hero_id s')) (super_heroes s')"
        using ih by simp
    qed
    have ids: "sorted_wrt (<) (requested Id_json (events s)) \<and>
        (\<forall>i \<in> set (requested Id_json (events s)). i \<le> hero_id s) \<longrightarrow>
        sorted_wrt (<) (requested Id_json (events s')) \<and>
        (\<forall>i \<in> set (requested Id_json (events s')). i \<le> hero_id s')"
    proof
      assume a: "sorted_wrt (<) (requested Id_json (events s)) \<and>
        (\<forall>i \<in> set (requested Id_json (events s)). i \<le> hero_id s)"
      have "sorted_wrt (<) (requested Id_json (events s1)) \<and>
        (\<forall>i \<in> set (requested Id_json (events s1)). i \<le> hero_id s1)"
        using a eff(1,3) by (auto simp add: sorted_wrt_append less_Suc_eq_le le_SucI)
      then show "sorted_wrt (<) (requested Id_json (events s')) \<and>
        (\<forall>i \<in> set (requested Id_json (events s')). i \<le> hero_id s')"
        using ih by simp
    qed
    show ?thesis using id bio len pub ids by simp
  qed
qed

lemma fetch_loop_passes:
  assumes run: "fetch_loop src from_api s = Some r"
  shows "\<exists>n. passes n src from_api s = r"
proof (rule fetch_loop.raw_induct
    [where P = "\<lambda>src from_api s r. \<exists>n. passes n src from_api s = r", OF _ run])
  fix loop :: "source \<Rightarrow> (json \<Rightarrow> exn + super_hero) \<Rightarrow> fetch_state \<Rightarrow> (exn + fetch_state) option"
  fix src from_api s r
  assume ih: "\<And>src from_api s r. loop src from_api s = Some r \<Longrightarrow> \<exists>n. passes n src from_api s = r"
  assume eq: "(if length (super_heroes s) < 10
       then case fetch_step src from_api s of
              Inl err \<Rightarrow> Some (Inl err)
            | Inr s' \<Rightarrow> loop src from_api s'
       else Some (Inr s)) = Some r"
  show "\<exists>n. passes n src from_api s = r"
  proof (cases "length (super_heroes s) < 10")
    case False
    with eq have "passes 0 src from_api s = r" by simp
    then show ?thesis by blast
  next
    case True
    show ?thesis
    proof (cases "fetch_step src from_api s")
      case (Inl e)
      with True eq have "r = Inl e" by simp
      with True Inl have "passes (Suc 0) src from_api s = r" by simp
      then show ?thesis by blast
    next
      case (Inr s1)
      with True eq have "loop src from_api s1 = Some r" by simp
      then have "\<exists>n. passes n src from_api s1 = r" by (rule ih)
      then obtain n where "passes n src from_api s1 = r" by blast
      with True Inr have "passes (Suc n) src from_api s = r" by simp
      then show ?thesis by blast
    qed
  qed
qed

text \<open>
  C7. In every state that \<open>main\<close> reaches in its loop, whatever the data source answers:
  at most ten records are collected; each of them is the record of an identifier, among those
  tried so far, whose biography names the publisher \<open>DC Comics\<close>; the biography requests
  went to the identifiers 1, 2, 3, and so on up to the current one, each once and in
  increasing order; and the full lookups went to increasing identifiers too.
\<close>

theorem fetcher_invariant:
  assumes "passes n src from_api fetch_init = Inr s"
  shows "length (super_heroes s) \<le> 10
    \<and> list_all (from_publisher src from_api (hero_id s)) (super_heroes s)
    \<and> requested Biography_json (events s) = [1 ..< Suc (hero_id s)]
    \<and> sorted_wrt (<) (requested Biography_json (events s))
    \<and> sorted_wrt (<) (requested Id_json (events s))"
proof -
  have init: "requested rt (events fetch_init) = []" "hero_id fetch_init = 0"
    "super_heroes fetch_init = []" for rt
    by (simp_all add: fetch_init_def)
  have bio: "requested Biography_json (events s) = [1 ..< Suc (hero_id s)]"
    using passes_effect [OF assms] by (simp add: init del: upt_Suc)
  have "sorted_wrt (<) [1 ..< Suc (hero_id s)]"
    by (rule sorted_wrt_upt)
  then have "sorted_wrt (<) (requested Biography_json (events s))"
    using bio by simp
  then show ?thesis
    using passes_effect [OF assms] bio by (simp add: init del: upt_Suc)
qed

theorem fetcher_invariant_witness:
  "passes 5 example_source example_from_api fetch_init =
     Inr \<lparr>super_heroes = [mk_hero 0 ''x'' ''-'', mk_hero 0 ''x'' ''-''], hero_id = 5,
          events = [Send Biography_json 1, Debug, Send Id_json 1, Debug,
                    Send Biography_json 2, Error 500, Print (HTTPError 500),
                    Send Biography_json 3, Debug,
                    Send Biography_json 4, Debug, Send Id_json 4, Debug,
                    Send Biography_json 5, Error 500, Print (HTTPError 500)]\<rparr>
   \<and> list_all (from_publisher example_source example_from_api 5)
        [mk_hero 0 ''x'' ''-'', mk_hero 0 ''x'' ''-'']"
proof -
  have e: "passes 5 example_source example_from_api fetch_init =
     Inr \<lparr>super_heroes = [mk_hero 0 ''x'' ''-'', mk_hero 0 ''x'' ''-''], hero_id = 5,
          events = [Send Biography_json 1, Debug, Send Id_json 1, Debug,
                    Send Biography_json 2, Error 500, Print (HTTPError 500),
                    Send Biography_json 3, Debug,
                    Send Biography_json 4, Debug, Send Id_json 4, Debug,
                    Send Biography_json 5, Error 500, Print (HTTPError 500)]\<rparr>"
    by code_simp
  show ?thesis
    using fetcher_invariant [OF e] e by simp
qed

text \<open>
  C8. When a request of the pass for the next identifier is answered with a status from 400
  to 599 (the biography request, or the full lookup after a biography that names DC Comics),
  the pass ends without an exception leaving it, no record is added, the identifier is counted
  as tried, and the loop goes on from the next one. For a status other than 404 the client
  logs the status as an error and raises \<open>HTTPError\<close>, which \<open>main\<close> catches and prints. For
  404, which the client treats as not found, it logs at debug level and returns nothing, and
  \<open>main\<close> moves on.
\<close>

theorem permanent_failure_skipped:
  assumes "src rt (Suc (hero_id s)) = Sent (Response st b)"
    and "400 \<le> st" and "st < 600"
    and "rt = Id_json \<longrightarrow> biography_publisher src (Suc (hero_id s)) = Some (JStr ''DC Comics'')"
    and "length (super_heroes s) < 10"
  shows "\<exists>s'. fetch_step src from_api s = Inr s'
      \<and> super_heroes s' = super_heroes s
      \<and> hero_id s' = Suc (hero_id s)
      \<and> events s' = events s
           @ (if rt = Id_json then snd (get_biography src (Suc (hero_id s))) else [])
           @ [Send rt (Suc (hero_id s))]
           @ (if st = 404 then [Debug]
              else [Error st] @ (case b of Inl _ \<Rightarrow> [Debug] | Inr _ \<Rightarrow> []) @ [Print (HTTPError st)])
      \<and> passes (Suc n) src from_api s = passes n src from_api s'"
proof (cases rt)
  case Biography_json
  then show ?thesis using assms
    by (simp add: fetch_step_def get_biography_def make_request_def except_HTTPError_def Let_def)
next
  case Id_json
  then show ?thesis using assms
    by (auto simp add: fetch_step_def get_biography_def get_super_hero_def make_request_def
        biography_publisher_def except_HTTPError_def Let_def
        split: prod.splits sum.splits if_splits sent.splits)
qed

theorem permanent_failure_skipped_witness:
  "broken_id_source Id_json (Suc (hero_id fetch_init)) =
     Sent (Response 500 (Inr ''Internal Server Error''))
   \<and> biography_publisher broken_id_source (Suc (hero_id fetch_init)) = Some (JStr ''DC Comics'')
   \<and> (\<exists>s'. fetch_step broken_id_source example_from_api fetch_init = Inr s' \<and>
          super_heroes s' = [] \<and> hero_id s' = 1 \<and>
          events s' = [Send Biography_json 1, Debug, Send Id_json 1, Error 500, Print (HTTPError 500)] \<and>
          passes 1 broken_id_source example_from_api fetch_init = Inr s')"
proof -
  have a: "broken_id_source Id_json (Suc (hero_id fetch_init)) =
     Sent (Response 500 (Inr ''Internal Server Error''))"
    by (simp add: broken_id_source_def)
  have b: "Id_json = Id_json \<longrightarrow>
      biography_publisher broken_id_source (Suc (hero_id fetch_init)) = Some (JStr ''DC Comics'')"
    by (simp add: broken_id_source_def biography_publisher_def get_biography_def
        make_request_def dc_biography_def)
  have c: "length (super_heroes fetch_init) < 10"
    by (simp add: fetch_init_def)
  show ?thesis
    using permanent_failure_skipped [OF a _ _ b c, of example_from_api 0] a b
    by (auto simp add: fetch_init_def get_biography_def make_request_def broken_id_source_def)
qed

section \<open>The layout as a function of its input\<close>

lemma hero_place_cong:
  "heights_agree w1 w2 hero \<Longrightarrow> hero_place w1 hero s = hero_place w2 hero s"
  by (simp add: heights_agree_def hero_markups_def hero_place_def draw_info_paragraph_def
      draw_paragraph_def Let_def)

lemma hero_place_data [simp]: "data (hero_place w hero s) = data s"
  by (simp add: hero_place_def draw_info_paragraph_def draw_paragraph_def Let_def)

lemma hero_finish_data: "hero_finish key heroes hero s = Inr s' \<Longrightarrow> data s' = data s"
  by (auto simp add: hero_finish_def Let_def split: sum.splits if_splits)

lemma hero_step_data: "hero_step w key heroes hero s = Inr s' \<Longrightarrow> data s' = data s"
  by (auto simp add: hero_step_def dest: hero_finish_data)

lemma hero_loop_data: "hero_loop w key heroes rest s = Inr s' \<Longrightarrow> data s' = data s"
  by (induction rest arbitrary: s) (auto split: sum.splits dest: hero_step_data)

lemma group_begin_data: "group_begin key s = Inr s' \<Longrightarrow> data s' = data s"
  by (auto simp add: group_begin_def shared_occupation_def draw_heading_def Let_def
      split: option.splits if_splits)

lemma group_step_data: "group_step w key s = Inr s' \<Longrightarrow> data s' = data s"
  by (auto simp add: group_step_def split: sum.splits option.splits
      dest!: group_begin_data hero_loop_data)

lemma hero_loop_cong:
  "list_all (heights_agree w1 w2) rest \<Longrightarrow>
   hero_loop w1 key heroes rest s = hero_loop w2 key heroes rest s"
  by (induction rest arbitrary: s) (auto simp add: hero_step_def hero_place_cong split: sum.splits)

lemma group_step_cong:
  assumes "list_all (\<lambda>(k, hs). list_all (heights_agree w1 w2) hs) (data s)"
  shows "group_step w1 key s = group_step w2 key s"
proof (cases "group_begin key s")
  case (Inl e)
  then show ?thesis by (simp add: group_step_def)
next
  case (Inr s1)
  then have d: "data s1 = data s" by (rule group_begin_data)
  show ?thesis
  proof (cases "map_of (data s) key")
    case None
    with Inr d show ?thesis by (simp add: group_step_def)
  next
    case (Some heroes)
    then have "(key, heroes) \<in> set (data s)" by (rule map_of_SomeD)
    with assms have "list_all (heights_agree w1 w2) heroes"
      by (auto simp add: list_all_iff)
    then have "hero_loop w1 key heroes heroes s1 = hero_loop w2 key heroes heroes s1"
      by (rule hero_loop_cong)
    with Inr d Some show ?thesis by (simp add: group_step_def)
  qed
qed

lemma group_loop_cong:
  "list_all (\<lambda>(k, hs). list_all (heights_agree w1 w2) hs) (data s) \<Longrightarrow>
   group_loop w1 keys s = group_loop w2 keys s"
proof (induction keys arbitrary: s)
  case Nil
  then show ?case by simp
next
  case (Cons key keys)
  have step: "group_step w1 key s = group_step w2 key s"
    using Cons.prems by (rule group_step_cong)
  show ?case
  proof (cases "group_step w2 key s")
    case (Inl e)
    with step show ?thesis by simp
  next
    case (Inr s')
    then have "data s' = data s" by (rule group_step_data)
    with Cons.prems have "group_loop w1 keys s' = group_loop w2 keys s'"
      by (intro Cons.IH) simp
    with step Inr show ?thesis by simp
  qed
qed

lemma group_begin_margins:
  assumes "data s1 = data s2" "file_name s1 = file_name s2" "title s1 = title s2"
    "font s1 = font s2" "bottom s1 = bottom s2" "page_items s1 = page_items s2"
    "canvas s1 = canvas s2"
  shows "group_begin key s1 = group_begin key s2"
proof -
  have "s1\<lparr>right_info := a, right_image := b\<rparr> = s2\<lparr>right_info := a, right_image := b\<rparr>" for a b
    using assms by (cases s1, cases s2) simp
  then show ?thesis by (simp add: group_begin_def Let_def)
qed

lemma group_loop_margins:
  assumes "data s1 = data s2" "file_name s1 = file_name s2" "title s1 = title s2"
    "font s1 = font s2" "bottom s1 = bottom s2" "page_items s1 = page_items s2"
    "canvas s1 = canvas s2"
  shows "map_sum id canvas (group_loop w keys s1) = map_sum id canvas (group_loop w keys s2)"
proof (cases keys)
  case Nil
  then show ?thesis using assms by simp
next
  case (Cons key rest)
  have "group_step w key s1 = group_step w key s2"
    using group_begin_margins [OF assms, of key] by (simp add: group_step_def)
  then show ?thesis using Cons by simp
qed

text \<open>
  C9, as amended. Two runs of \<open>create_pdf\<close> that start from the same cursor and the same
  page-item counter, on objects with the same groups, file name, title and font, with backends
  that return the same heights for the paragraphs of the heroes in the groups, send the same
  operations to the canvas (page breaks among them) or raise the same exception. The margins
  and the canvas that the objects hold before the run do not matter. \<open>__init__\<close> sets the
  cursor to eleven inches and the counter to zero, so two freshly built objects for the same
  heroes qualify.
\<close>

theorem layout_deterministic:
  assumes "data s1 = data s2" and "file_name s1 = file_name s2" and "title s1 = title s2"
    and "font s1 = font s2" and "bottom s1 = bottom s2" and "page_items s1 = page_items s2"
    and "list_all (\<lambda>(k, hs). list_all (heights_agree w1 w2) hs) (data s1)"
  shows "map_sum id canvas (create_pdf w1 s1) = map_sum id canvas (create_pdf w2 s2)"
proof -
  let ?t1 = "draw_heading (title s1) 18 (s1\<lparr>canvas := [NewCanvas (file_name s1 @ ''.pdf'')]\<rparr>)"
  let ?t2 = "draw_heading (title s2) 18 (s2\<lparr>canvas := [NewCanvas (file_name s2 @ ''.pdf'')]\<rparr>)"
  have agree: "data ?t1 = data ?t2" "file_name ?t1 = file_name ?t2" "title ?t1 = title ?t2"
    "font ?t1 = font ?t2" "bottom ?t1 = bottom ?t2" "page_items ?t1 = page_items ?t2"
    "canvas ?t1 = canvas ?t2"
    using assms by (simp_all add: draw_heading_def)
  have d: "data ?t1 = data s1" by (simp add: draw_heading_def)
  have "group_loop w1 (map fst (data s1)) ?t1 = group_loop w2 (map fst (data s1)) ?t1"
    using assms(7) d by (intro group_loop_cong) simp
  moreover have "map_sum id canvas (group_loop w2 (map fst (data s1)) ?t1) =
      map_sum id canvas (group_loop w2 (map fst (data s1)) ?t2)"
    using agree by (rule group_loop_margins)
  ultimately have loops: "map_sum id canvas (group_loop w1 (map fst (data s1)) ?t1) =
      map_sum id canvas (group_loop w2 (map fst (data s2)) ?t2)"
    using assms(1) by simp
  have c1: "map_sum id canvas (create_pdf w1 s1) =
      map_sum id (\<lambda>c. c @ [Save]) (map_sum id canvas (group_loop w1 (map fst (data s1)) ?t1))"
    using d by (simp add: create_pdf_def Let_def split: sum.splits)
  have d2: "data ?t2 = data s2" by (simp add: draw_heading_def)
  have c2: "map_sum id canvas (create_pdf w2 s2) =
      map_sum id (\<lambda>c. c @ [Save]) (map_sum id canvas (group_loop w2 (map fst (data s2)) ?t2))"
    using d2 by (simp add: create_pdf_def Let_def split: sum.splits)
  show ?thesis using c1 c2 loops by simp
qed

theorem layout_deterministic_witness:
  "map_sum id canvas (create_pdf one_line (fresh_pdf [(''Pilot'', [mk_hero 1 ''a'' ''Pilot''])])) =
   map_sum id canvas (create_pdf other_backend
     ((fresh_pdf [(''Pilot'', [mk_hero 1 ''a'' ''Pilot''])])\<lparr>right_info := 0, canvas := [Save]\<rparr>))"
  using layout_deterministic [of "fresh_pdf [(''Pilot'', [mk_hero 1 ''a'' ''Pilot''])]"
      "(fresh_pdf [(''Pilot'', [mk_hero 1 ''a'' ''Pilot''])])\<lparr>right_info := 0, canvas := [Save]\<rparr>"
      one_line other_backend]
  by (simp add: fresh_pdf_def heights_agree_def hero_markups_def one_line_def other_backend_def)

text \<open>
  C9 as stated fails: the cursor and the counter are set in \<open>__init__\<close> only (lines 40 and
  41), and \<open>create_pdf\<close> does not reset them. Run twice on the same object, for one hero and
  the same backend, the groups are the same at both runs, the first run draws the title at 792
  and ends with the cursor at 610 and the counter at 1, and the second run draws the title at
  610 and places the hero from there with the counter going to 2.
\<close>

theorem rerun_draws_differently:
  "(case PDF ''super_heroes'' ''Heroes'' [mk_hero 1 ''a'' ''Pilot''] of
      Inl e \<Rightarrow> False
    | Inr s \<Rightarrow>
       (case create_pdf one_line s of
          Inl e \<Rightarrow> False
        | Inr s1 \<Rightarrow>
           (case create_pdf one_line s1 of
              Inl e \<Rightarrow> False
            | Inr s2 \<Rightarrow>
                data s1 = data s \<and>
                canvas s1 ! 2 = DrawString 72 792 ''Heroes'' \<and>
                canvas s2 ! 2 = DrawString 72 610 ''Heroes'' \<and>
                bottom s1 = 610 \<and> page_items s1 = 1 \<and> page_items s2 = 2 \<and>
                canvas s2 \<noteq> canvas s1)))"
  by (simp add: PDF_def mk_hero_def create_pdf_def draw_heading_def group_step_def
      group_begin_def shared_occupation_def hero_step_def hero_place_def hero_finish_def
      draw_info_paragraph_def draw_paragraph_def Let_def one_line_def inch_def)

end
